theory Spec2Isabelle
  imports
    Main
    "HOL-Library.Char_ord"
    "HOL-Library.List_Lexorder"
    "HOL-Library.Product_Lexorder"
    "HOL-Library.Option_ord"
begin

section \<open>Strings and characters\<close>

text \<open>
  A Python \<open>str\<close> is modelled as a \<open>string\<close> whose characters are the code points
  0 to 255 (ASCII and Latin-1). On these code points the classes below are the ones of
  CPython 3: \<open>str.lower\<close>, \<open>str.isspace\<close> (the separators of \<open>str.split()\<close>) and the
  word characters \<open>\w\<close> of the \<open>re\<close> module for \<open>str\<close> patterns.
\<close>

definition py_lower_char :: "char \<Rightarrow> char" where
  "py_lower_char c =
     (let n = (of_char c :: nat)
      in if (65 \<le> n \<and> n \<le> 90) \<or> (192 \<le> n \<and> n \<le> 222 \<and> n \<noteq> 215)
         then char_of (n + 32) else c)"

definition py_lower :: "string \<Rightarrow> string" where
  "py_lower s = map py_lower_char s"

definition py_isspace :: "char \<Rightarrow> bool" where
  "py_isspace c =
     (let n = (of_char c :: nat)
      in (9 \<le> n \<and> n \<le> 13) \<or> (28 \<le> n \<and> n \<le> 32) \<or> n = 133 \<or> n = 160)"

text \<open>The character class \<open>[a-z0-9]\<close>, whose complement \<open>NON_ALNUM_RE\<close> looks for.\<close>

definition is_az09 :: "char \<Rightarrow> bool" where
  "is_az09 c =
     (let n = (of_char c :: nat) in (97 \<le> n \<and> n \<le> 122) \<or> (48 \<le> n \<and> n \<le> 57))"

text \<open>
  \<open>sep.join(parts)\<close> and \<open>s.split()\<close>: the latter cuts at every run of white space and
  never returns an empty word. The first argument of \<open>split_acc\<close> is the word read so far.
\<close>

fun py_join :: "string \<Rightarrow> string list \<Rightarrow> string" where
  "py_join sep [] = []"
| "py_join sep [x] = x"
| "py_join sep (x # y # ys) = x @ sep @ py_join sep (y # ys)"

fun split_acc :: "string \<Rightarrow> string \<Rightarrow> string list" where
  "split_acc w [] = (if w = [] then [] else [w])"
| "split_acc w (c # cs) =
     (if py_isspace c
      then (if w = [] then split_acc [] cs else w # split_acc [] cs)
      else split_acc (w @ [c]) cs)"

definition py_split :: "string \<Rightarrow> string list" where
  "py_split s = split_acc [] s"

section \<open>ai\_analysis\_broad: the normalizer\<close>

text \<open>
  \<open>NON_ALNUM_RE.sub(" ", s)\<close> with \<open>NON_ALNUM_RE = [^a-z0-9]+\<close>: every maximal run of
  characters outside \<open>[a-z0-9]\<close> becomes one space.
\<close>

function NON_ALNUM_sub :: "string \<Rightarrow> string" where
  "NON_ALNUM_sub [] = []"
| "NON_ALNUM_sub (c # cs) =
     (if is_az09 c then c # NON_ALNUM_sub cs
      else CHR '' '' # NON_ALNUM_sub (dropWhile (\<lambda>x. \<not> is_az09 x) cs))"
  by pat_completeness auto
termination
  by (relation "measure length") (auto simp: le_imp_less_Suc length_dropWhile_le)

text \<open>
  \<^verbatim>\<open>
  def normalize_text(text: str) -> str:
      lowered = text.lower()
      cleaned = NON_ALNUM_RE.sub(" ", lowered)
      return " ".join(cleaned.split())
  \<close>
\<close>

definition normalize_text :: "string \<Rightarrow> string" where
  "normalize_text text =
     (let lowered = py_lower text;
          cleaned = NON_ALNUM_sub lowered
      in py_join '' '' (py_split cleaned))"

section \<open>Regular expressions\<close>

text \<open>
  The fragment of Python's \<open>re\<close> syntax that the pattern tables of the repository use:
  literal characters, a character set such as \<open>[- ]\<close>, the word boundary \<open>\b\<close>,
  concatenation, alternation \<open>a|b\<close> and the optional group \<open>(a)?\<close>.
\<close>

datatype regex =
    Eps
  | Lit char
  | OneOf "char list"
  | Boundary
  | Seq regex regex
  | Alt regex regex
  | Opt regex

text \<open>\<open>re.compile(pattern, flags)\<close>: the expression and whether \<open>re.IGNORECASE\<close> is set.\<close>

datatype re_pattern = Re_Pattern (ignorecase: bool) (expr: regex)

definition re_compile :: "regex \<Rightarrow> bool \<Rightarrow> re_pattern" where
  "re_compile r ic = Re_Pattern ic r"

text \<open>The word characters \<open>\w\<close> (letters, digits and the underscore).\<close>

definition py_isword :: "char \<Rightarrow> bool" where
  "py_isword c =
     (let n = (of_char c :: nat)
      in (48 \<le> n \<and> n \<le> 57) \<or> (65 \<le> n \<and> n \<le> 90) \<or> n = 95 \<or> (97 \<le> n \<and> n \<le> 122)
         \<or> n = 170 \<or> n = 178 \<or> n = 179 \<or> n = 181 \<or> n = 185 \<or> n = 186
         \<or> (188 \<le> n \<and> n \<le> 190) \<or> (192 \<le> n \<and> n \<le> 214)
         \<or> (216 \<le> n \<and> n \<le> 246) \<or> 248 \<le> n)"

definition char_matches :: "bool \<Rightarrow> char \<Rightarrow> char \<Rightarrow> bool" where
  "char_matches ic p x = (if ic then py_lower_char p = py_lower_char x else p = x)"

text \<open>
  A matcher state is the rest of the text together with whether the character just
  before it is a word character (\<open>False\<close> at the start of the text). \<open>rx_run\<close> returns
  every state in which a match of the expression that starts in the given state can end.
\<close>

fun rx_run :: "bool \<Rightarrow> regex \<Rightarrow> bool \<times> string \<Rightarrow> (bool \<times> string) list" where
  "rx_run ic Eps st = [st]"
| "rx_run ic (Lit p) (b, []) = []"
| "rx_run ic (Lit p) (b, x # xs) =
     (if char_matches ic p x then [(py_isword x, xs)] else [])"
| "rx_run ic (OneOf ps) (b, []) = []"
| "rx_run ic (OneOf ps) (b, x # xs) =
     (if list_ex (\<lambda>p. char_matches ic p x) ps then [(py_isword x, xs)] else [])"
| "rx_run ic Boundary (b, xs) =
     (if b \<noteq> (case xs of [] \<Rightarrow> False | x # _ \<Rightarrow> py_isword x) then [(b, xs)] else [])"
| "rx_run ic (Seq r1 r2) st = concat (map (rx_run ic r2) (rx_run ic r1 st))"
| "rx_run ic (Alt r1 r2) st = rx_run ic r1 st @ rx_run ic r2 st"
| "rx_run ic (Opt r) st = rx_run ic r st @ [st]"

text \<open>\<open>pattern.search(text)\<close> as a truth value: a match starts at some position.\<close>

fun search_from :: "bool \<Rightarrow> regex \<Rightarrow> bool \<Rightarrow> string \<Rightarrow> bool" where
  "search_from ic r b [] = (rx_run ic r (b, []) \<noteq> [])"
| "search_from ic r b (x # xs) =
     (rx_run ic r (b, x # xs) \<noteq> [] \<or> search_from ic r (py_isword x) xs)"

definition re_search :: "re_pattern \<Rightarrow> string \<Rightarrow> bool" where
  "re_search p text = search_from (ignorecase p) (expr p) False text"

text \<open>Writing the source's pattern strings: a literal run and a sequence of parts.\<close>

fun lit :: "string \<Rightarrow> regex" where
  "lit [] = Eps"
| "lit (c # cs) = Seq (Lit c) (lit cs)"

definition seqs :: "regex list \<Rightarrow> regex" where
  "seqs rs = foldr Seq rs Eps"

text \<open>\<open>\b...\b\<close>: the shape of every pattern in the tables.\<close>

definition bounded :: "regex list \<Rightarrow> regex" where
  "bounded rs = seqs ([Boundary] @ rs @ [Boundary])"

section \<open>ai\_analysis\_broad: tables\<close>

definition BROAD_PATTERNS :: "(string \<times> regex) list" where
  "BROAD_PATTERNS =
    [(''artificial_intelligence'', bounded [lit ''artificial intelligence'']),
     (''ai'', bounded [lit ''ai'']),
     (''machine_learning'', bounded [lit ''machine learning'']),
     (''deep_learning'', bounded [lit ''deep learning'']),
     (''generative_ai'', bounded [lit ''generative ai'']),
     (''llm'', bounded [lit ''large language model'', Opt (lit ''s'')]),
     (''llm'', bounded [lit ''llm'']),
     (''gpt'', bounded [lit ''gpt'']),
     (''chatgpt'', bounded [lit ''chatgpt'']),
     (''neural_network'', bounded [lit ''neural network'', Opt (lit ''s'')]),
     (''reinforcement_learning'', bounded [lit ''reinforcement learning'']),
     (''nlp'', bounded [lit ''natural language processing'']),
     (''nlp'', bounded [lit ''nlp'']),
     (''computer_vision'', bounded [lit ''computer vision'']),
     (''machine_vision'', bounded [lit ''machine vision'']),
     (''image_processing'', bounded [lit ''image processing'']),
     (''pattern_recognition'', bounded [lit ''pattern recognition'']),
     (''data_mining'', bounded [lit ''data mining'']),
     (''information_retrieval'', bounded [lit ''information retrieval'']),
     (''expert_systems'', bounded [lit ''expert system'', Opt (lit ''s'')]),
     (''knowledge_representation'', bounded [lit ''knowledge representation'']),
     (''intelligent_systems'', bounded [lit ''intelligent system'', Opt (lit ''s'')]),
     (''intelligent_agents'', bounded [lit ''intelligent agent'', Opt (lit ''s'')]),
     (''autonomous_systems'', bounded [lit ''autonomous system'', Opt (lit ''s'')]),
     (''autonomous'', bounded [lit ''autonomous'']),
     (''robotics'', bounded [lit ''robotic'', Opt (lit ''s'')]),
     (''computational_intelligence'', bounded [lit ''computational intelligence'']),
     (''speech_recognition'', bounded [lit ''speech recognition'']),
     (''recommendation_systems'', bounded [lit ''recommendation system'', Opt (lit ''s'')]),
     (''recommender_systems'', bounded [lit ''recommender system'', Opt (lit ''s'')]),
     (''decision_support'', bounded [lit ''decision support'']),
     (''intelligent_control'', bounded [lit ''intelligent control'']),
     (''data_science'', bounded [lit ''data science''])]"

definition BROAD_FUZZY_PHRASES :: "string list" where
  "BROAD_FUZZY_PHRASES =
    [''artificial intelligence'', ''machine learning'', ''deep learning'', ''generative ai'',
     ''large language model'', ''neural network'', ''reinforcement learning'',
     ''natural language processing'', ''computer vision'', ''pattern recognition'',
     ''data mining'', ''information retrieval'', ''expert systems'',
     ''knowledge representation'', ''intelligent systems'', ''intelligent agent'',
     ''autonomous systems'', ''computational intelligence'', ''speech recognition'',
     ''recommendation systems'', ''recommender systems'', ''decision support'',
     ''intelligent control'', ''data science'']"

section \<open>The course table\<close>

text \<open>
  A row of the data frame that \<open>pd.read_csv\<close> returns, after the check that the columns
  \<open>prefix\<close>, \<open>number\<close>, \<open>title\<close> and \<open>description\<close> exist. An empty cell is read
  as a missing value (\<open>None\<close> here). The \<open>number\<close> column holds integers or strings,
  as pandas infers it; all other columns are kept in \<open>other\<close>.
\<close>

record 'n course_row =
  prefix :: "string option"
  number :: "'n option"
  title :: "string option"
  description :: "string option"
  other :: "string list"

text \<open>
  \<open>drop_duplicates(subset=[c1, c2])\<close> keeps the first row of every key, two missing
  cells counting as equal; the first argument of \<open>drop_duplicates_acc\<close> holds the keys
  seen so far. \<open>sort_values([c1, c2])\<close> orders the rows by the first column, then by the
  second, with the missing cells of a column after its present ones.
\<close>

fun drop_duplicates_acc :: "'k list \<Rightarrow> ('r \<Rightarrow> 'k) \<Rightarrow> 'r list \<Rightarrow> 'r list" where
  "drop_duplicates_acc seen key [] = []"
| "drop_duplicates_acc seen key (r # rs) =
     (if key r \<in> set seen then drop_duplicates_acc seen key rs
      else r # drop_duplicates_acc (key r # seen) key rs)"

definition drop_duplicates :: "('r \<Rightarrow> 'a) \<Rightarrow> ('r \<Rightarrow> 'b) \<Rightarrow> 'r list \<Rightarrow> 'r list" where
  "drop_duplicates c1 c2 df = drop_duplicates_acc [] (\<lambda>r. (c1 r, c2 r)) df"

definition na_last :: "'a option \<Rightarrow> bool \<times> 'a option" where
  "na_last cell = (cell = None, cell)"

definition sort_column_key ::
  "('r \<Rightarrow> 'a option) \<Rightarrow> ('r \<Rightarrow> 'b option) \<Rightarrow> 'r \<Rightarrow> (bool \<times> 'a option) \<times> (bool \<times> 'b option)" where
  "sort_column_key c1 c2 r = (na_last (c1 r), na_last (c2 r))"

definition sort_values ::
  "('r \<Rightarrow> 'a::linorder option) \<Rightarrow> ('r \<Rightarrow> 'b::linorder option) \<Rightarrow> 'r list \<Rightarrow> 'r list" where
  "sort_values c1 c2 df = sort_key (sort_column_key c1 c2) df"

text \<open>The exceptions that the scripts can raise after the input checks.\<close>

datatype error = ValueError | TypeError | KeyError

text \<open>
  The subset both scripts write:
  \<^verbatim>\<open>
  subset = (
      df[df[flag]]
      .drop_duplicates(subset=["prefix", "number"])
      .sort_values(["prefix", "number"])
  )
  \<close>
  On a data frame with no rows the flag column, assigned from an empty list, is not a
  boolean column: \<open>df[df[flag]]\<close> then selects columns, none of them, \<open>drop_duplicates\<close>
  returns the empty frame as it is and \<open>sort_values\<close> raises \<open>KeyError('prefix')\<close>. On a
  data frame with rows the flag column is boolean and the expression filters the rows.
\<close>

definition flagged_subset ::
  "('r \<Rightarrow> 'a::linorder option) \<Rightarrow> ('r \<Rightarrow> 'b::linorder option) \<Rightarrow> ('r \<Rightarrow> bool) \<Rightarrow> 'r list
     \<Rightarrow> error + 'r list" where
  "flagged_subset c1 c2 flag df =
     (if df = [] then Inl KeyError
      else Inr (sort_values c1 c2 (drop_duplicates c1 c2 (filter flag df))))"

section \<open>ai\_analysis\_broad: the candidate search\<close>

text \<open>Python's \<open>max\<close> raises \<open>ValueError\<close> on an empty sequence.\<close>

fun py_max :: "int list \<Rightarrow> error + int" where
  "py_max [] = Inl ValueError"
| "py_max (x # xs) = Inr (fold max xs x)"

text \<open>
  \<open>fuzz.partial_ratio\<close> belongs to the library \<open>thefuzz\<close>, not to the repository: it is
  the parameter \<open>partial_ratio\<close> of everything below.
  \<^verbatim>\<open>
  def max_fuzzy_score(text_norm: str, phrases: list[str]) -> int:
      if not text_norm:
          return 0
      return max(fuzz.partial_ratio(text_norm, phrase) for phrase in phrases)
  \<close>
\<close>

definition max_fuzzy_score ::
  "(string \<Rightarrow> string \<Rightarrow> int) \<Rightarrow> string \<Rightarrow> string list \<Rightarrow> error + int" where
  "max_fuzzy_score partial_ratio text_norm phrases =
     (if text_norm = [] then Inr 0
      else py_max (map (\<lambda>phrase. partial_ratio text_norm phrase) phrases))"

text \<open>The command line: \<open>--fuzzy-threshold\<close> (default 85) and \<open>--disable-fuzzy\<close>.\<close>

record args =
  fuzzy_threshold :: int
  disable_fuzzy :: bool

definition compiled :: "(string \<times> re_pattern) list" where
  "compiled = map (\<lambda>(label, pattern). (label, re_compile pattern False)) BROAD_PATTERNS"

definition fuzzy_phrases :: "string list" where
  "fuzzy_phrases = map normalize_text BROAD_FUZZY_PHRASES"

text \<open>\<open>.fillna("").astype(str)\<close> on a text column.\<close>

definition fillna_str :: "string option \<Rightarrow> string" where
  "fillna_str cell = (case cell of None \<Rightarrow> [] | Some s \<Rightarrow> s)"

definition text_norm_series :: "'n course_row list \<Rightarrow> string list" where
  "text_norm_series df =
     map (\<lambda>r. normalize_text (fillna_str (title r) @ '' '' @ fillna_str (description r))) df"

text \<open>
  \<^verbatim>\<open>
  hits = [label for label, rx in compiled if rx.search(text_norm)]
  reason = ",".join(sorted(set(hits))) if hits else ""
  reasons.append(reason)
  matched.append(bool(hits))
  \<close>
\<close>

definition hits_of :: "string \<Rightarrow> string list" where
  "hits_of text_norm = map fst (filter (\<lambda>(label, rx). re_search rx text_norm) compiled)"

definition reason_of :: "string \<Rightarrow> string" where
  "reason_of text_norm =
     (let hits = hits_of text_norm
      in if hits \<noteq> [] then py_join '','' (sort (remdups hits)) else [])"

definition matched_of :: "string \<Rightarrow> bool" where
  "matched_of text_norm = (hits_of text_norm \<noteq> [])"

text \<open>Evaluating a list of results in order; the first exception ends it.\<close>

fun collect :: "('e + 'a) list \<Rightarrow> 'e + 'a list" where
  "collect [] = Inr []"
| "collect (x # xs) =
     (case x of
        Inl e \<Rightarrow> Inl e
      | Inr v \<Rightarrow> (case collect xs of Inl e \<Rightarrow> Inl e | Inr vs \<Rightarrow> Inr (v # vs)))"

text \<open>
  \<^verbatim>\<open>
  if args.disable_fuzzy:
      fuzzy_match = [False] * len(df)
  else:
      fuzzy_match = [
          max_fuzzy_score(text, fuzzy_phrases) >= args.fuzzy_threshold
          for text in text_norm_series
      ]
  \<close>
\<close>

definition fuzzy_flag ::
  "(string \<Rightarrow> string \<Rightarrow> int) \<Rightarrow> string list \<Rightarrow> int \<Rightarrow> string \<Rightarrow> error + bool" where
  "fuzzy_flag partial_ratio phrases threshold text =
     (case max_fuzzy_score partial_ratio text phrases of
        Inl e \<Rightarrow> Inl e
      | Inr score \<Rightarrow> Inr (score \<ge> threshold))"

definition fuzzy_match_of ::
  "(string \<Rightarrow> string \<Rightarrow> int) \<Rightarrow> args \<Rightarrow> string list \<Rightarrow> error + bool list" where
  "fuzzy_match_of partial_ratio a texts =
     (if disable_fuzzy a then Inr (replicate (length texts) False)
      else collect (map (fuzzy_flag partial_ratio fuzzy_phrases (fuzzy_threshold a)) texts))"

text \<open>The data frame with the two columns the script adds.\<close>

record 'n candidate_row =
  row :: "'n course_row"
  is_ai_candidate :: bool
  ai_candidate_reason :: string

definition add_columns ::
  "'n course_row list \<Rightarrow> bool list \<Rightarrow> string list \<Rightarrow> 'n candidate_row list" where
  "add_columns df flags reasons =
     map (\<lambda>(r, flag, reason).
            \<lparr>row = r, is_ai_candidate = flag, ai_candidate_reason = reason\<rparr>)
         (zip df (zip flags reasons))"

text \<open>
  \<open>classify\<close> is the part of \<open>main\<close> from the compiled patterns to the two new columns,
  \<open>broad_main\<close> the data frame it writes.
\<close>

definition classify ::
  "(string \<Rightarrow> string \<Rightarrow> int) \<Rightarrow> args \<Rightarrow> 'n course_row list \<Rightarrow> error + 'n candidate_row list" where
  "classify partial_ratio a df =
     (let texts = text_norm_series df;
          reasons = map reason_of texts;
          matched = map matched_of texts
      in case fuzzy_match_of partial_ratio a texts of
           Inl e \<Rightarrow> Inl e
         | Inr fuzzy_match \<Rightarrow>
             Inr (add_columns df (map (\<lambda>(m, f). m \<or> f) (zip matched fuzzy_match)) reasons))"

definition broad_main ::
  "(string \<Rightarrow> string \<Rightarrow> int) \<Rightarrow> args \<Rightarrow> ('n::linorder) course_row list
     \<Rightarrow> error + 'n candidate_row list" where
  "broad_main partial_ratio a df =
     (case classify partial_ratio a df of
        Inl e \<Rightarrow> Inl e
      | Inr rows \<Rightarrow>
          flagged_subset (\<lambda>r. prefix (row r)) (\<lambda>r. number (row r)) is_ai_candidate rows)"

section \<open>ethics\_filter and ethics\_analysis: the ethics matcher\<close>

text \<open>The two modules hold the same two tables.\<close>

definition TITLE_PATTERNS :: "regex list" where
  "TITLE_PATTERNS =
    [bounded [lit ''ethic'', Opt (Alt (lit ''s'') (lit ''al''))],
     bounded [lit ''bioethic'', Opt (Alt (lit ''s'') (lit ''al''))],
     bounded [lit ''cyberethic'', Opt (Alt (lit ''s'') (lit ''al''))]]"

definition DESCRIPTION_PATTERNS :: "regex list" where
  "DESCRIPTION_PATTERNS =
    [bounded [lit ''professional ethics''],
     bounded [lit ''ethical decision'', OneOf ''- '', lit ''making''],
     bounded [lit ''ethical issue'', Opt (lit ''s'')],
     bounded [lit ''ethics and''],
     bounded [lit ''ethics of''],
     bounded [lit ''ethics in''],
     bounded [lit ''research ethics''],
     bounded [lit ''ethical standard'', Opt (lit ''s'')],
     bounded [lit ''ethical responsibilitie'', Opt (lit ''s'')],
     bounded [lit ''health care ethics''],
     bounded [lit ''environmental ethics''],
     bounded [lit ''bioethic'', Opt (Alt (lit ''s'') (lit ''al''))],
     bounded [lit ''cyberethic'', Opt (Alt (lit ''s'') (lit ''al''))],
     bounded [lit ''code of ethics'']]"

record EthicsMatcher =
  title_patterns :: "re_pattern list"
  description_patterns :: "re_pattern list"

text \<open>\<open>value or ""\<close> for a value of type \<open>str | None\<close>.\<close>

definition or_empty :: "string option \<Rightarrow> string" where
  "or_empty v = (case v of None \<Rightarrow> [] | Some s \<Rightarrow> s)"

text \<open>
  ethics\_filter:
  \<^verbatim>\<open>
  def build(cls, include_description: bool = True) -> "EthicsMatcher":
      if include_description:
          description_patterns = tuple(
              re.compile(pattern, re.IGNORECASE) for pattern in DESCRIPTION_PATTERNS)
      else:
          description_patterns = ()
      return cls(
          title_patterns=tuple(
              re.compile(pattern, re.IGNORECASE) for pattern in TITLE_PATTERNS),
          description_patterns=description_patterns)

  def is_match(self, title: str | None, description: str | None) -> bool:
      title_text = title or ""
      description_text = description or ""
      if any(p.search(title_text) for p in self.title_patterns):
          return True
      if not self.description_patterns:
          return False
      return any(p.search(description_text) for p in self.description_patterns)
  \<close>
\<close>

definition build :: "bool \<Rightarrow> EthicsMatcher" where
  "build include_description =
     \<lparr>title_patterns = map (\<lambda>pattern. re_compile pattern True) TITLE_PATTERNS,
      description_patterns =
        (if include_description
         then map (\<lambda>pattern. re_compile pattern True) DESCRIPTION_PATTERNS
         else [])\<rparr>"

definition is_match :: "EthicsMatcher \<Rightarrow> string option \<Rightarrow> string option \<Rightarrow> bool" where
  "is_match self title_arg description_arg =
     (let title_text = or_empty title_arg;
          description_text = or_empty description_arg
      in if list_ex (\<lambda>p. re_search p title_text) (title_patterns self) then True
         else if description_patterns self = [] then False
         else list_ex (\<lambda>p. re_search p description_text) (description_patterns self))"

text \<open>
  ethics\_analysis: \<open>build\<close> takes no argument and always compiles the description
  patterns; \<open>is_match\<close> has no test for an empty tuple.
\<close>

definition analysis_build :: "EthicsMatcher" where
  "analysis_build =
     \<lparr>title_patterns = map (\<lambda>pattern. re_compile pattern True) TITLE_PATTERNS,
      description_patterns = map (\<lambda>pattern. re_compile pattern True) DESCRIPTION_PATTERNS\<rparr>"

definition analysis_is_match ::
  "EthicsMatcher \<Rightarrow> string option \<Rightarrow> string option \<Rightarrow> bool" where
  "analysis_is_match self title_arg description_arg =
     (let title_text = or_empty title_arg;
          description_text = or_empty description_arg
      in if list_ex (\<lambda>p. re_search p title_text) (title_patterns self) then True
         else list_ex (\<lambda>p. re_search p description_text) (description_patterns self))"

text \<open>
  \<open>main\<close> of ethics\_analysis flags every row with \<open>matcher.is_match(title, description)\<close>
  and writes the flagged subset. The cells come from pandas: a missing cell is the float
  \<open>nan\<close>, which is truthy, so \<open>cell or ""\<close> keeps it and the first \<open>search\<close> on it
  raises \<open>TypeError\<close>; \<open>any\<close> stops at the first pattern that matches.
\<close>

fun any_search :: "re_pattern list \<Rightarrow> string option \<Rightarrow> error + bool" where
  "any_search [] cell = Inr False"
| "any_search (p # ps) None = Inl TypeError"
| "any_search (p # ps) (Some s) = (if re_search p s then Inr True else any_search ps (Some s))"

definition is_match_cells ::
  "EthicsMatcher \<Rightarrow> string option \<Rightarrow> string option \<Rightarrow> error + bool" where
  "is_match_cells self title_cell description_cell =
     (case any_search (title_patterns self) title_cell of
        Inl e \<Rightarrow> Inl e
      | Inr True \<Rightarrow> Inr True
      | Inr False \<Rightarrow> any_search (description_patterns self) description_cell)"

record 'n ethics_row =
  course :: "'n course_row"
  is_ethics_related :: bool

definition ethics_main :: "('n::linorder) course_row list \<Rightarrow> error + 'n ethics_row list" where
  "ethics_main df =
     (case collect (map (\<lambda>r. is_match_cells analysis_build (title r) (description r)) df) of
        Inl e \<Rightarrow> Inl e
      | Inr ethics_flags \<Rightarrow>
          flagged_subset (\<lambda>r. prefix (course r)) (\<lambda>r. number (course r)) is_ethics_related
            (map (\<lambda>(r, flag). \<lparr>course = r, is_ethics_related = flag\<rparr>) (zip df ethics_flags)))"

section \<open>ai\_analysis: the tiered rule match\<close>

text \<open>
  Modelled from the spec: the module ai\_analysis is not among the sources; only
  tests/test\_ai\_analysis.py calls it. \<open>matches_any(text_norm, patterns)\<close> says whether
  any pattern of a compiled tier matches the normalized text.
\<close>

definition matches_any :: "string \<Rightarrow> re_pattern list \<Rightarrow> bool" where
  "matches_any text_norm patterns = list_ex (\<lambda>rx. re_search rx text_norm) patterns"

text \<open>
  Modelled from the spec: the rule match of the AI topic, absent with ai\_analysis, in
  the words of section 4.2 and as the test computes it: positive if any primary pattern
  matches the normalized text, or any secondary pattern matches and any context pattern
  matches. The three tiers (\<open>PRIMARY_PATTERNS\<close>, \<open>SECONDARY_PATTERNS\<close> and
  \<open>CONTEXT_PATTERNS\<close>, compiled) are absent too and are parameters.
\<close>

definition keyword_match ::
  "re_pattern list \<Rightarrow> re_pattern list \<Rightarrow> re_pattern list \<Rightarrow> string \<Rightarrow> bool" where
  "keyword_match primary secondary context text_norm =
     (matches_any text_norm primary
      \<or> (matches_any text_norm secondary \<and> matches_any text_norm context))"

text \<open>
  Modelled from the spec: the AI classification of a record by rules, absent with
  ai\_analysis: the rule match on the combined normalized text of title and description, a
  missing title or description treated as the empty string. The normalizer of ai\_analysis
  is absent too (the test expects it to map \<open>A.I.\<close> to \<open>ai\<close>) and is a parameter.
\<close>

definition ai_rule_match ::
  "(string \<Rightarrow> string) \<Rightarrow> re_pattern list \<Rightarrow> re_pattern list \<Rightarrow> re_pattern list
     \<Rightarrow> string option \<Rightarrow> string option \<Rightarrow> bool" where
  "ai_rule_match normalizer primary secondary context title_arg description_arg =
     keyword_match primary secondary context
       (normalizer (or_empty title_arg @ '' '' @ or_empty description_arg))"

section \<open>The order of the written subset\<close>

text \<open>
  What sorted by (prefix, number) means, said without the sort key of \<open>sort_values\<close>:
  \<open>cell_less\<close> orders the cells of a column, present cells by their values and before
  every missing one; \<open>row_le\<close> orders rows by the first column and, where the first
  cells are equal, by the second.
\<close>

definition cell_less :: "('a::linorder) option \<Rightarrow> 'a option \<Rightarrow> bool" where
  "cell_less x y =
     (case x of
        None \<Rightarrow> False
      | Some a \<Rightarrow> (case y of None \<Rightarrow> True | Some b \<Rightarrow> a < b))"

definition row_le ::
  "('r \<Rightarrow> 'a::linorder option) \<Rightarrow> ('r \<Rightarrow> 'b::linorder option) \<Rightarrow> 'r \<Rightarrow> 'r \<Rightarrow> bool" where
  "row_le c1 c2 r r' =
     (cell_less (c1 r) (c1 r')
      \<or> (c1 r = c1 r' \<and> (cell_less (c2 r) (c2 r') \<or> c2 r = c2 r')))"

section \<open>Auxiliary notions for the proofs\<close>

text \<open>
  A plain text has only characters of \<open>[a-z0-9]\<close> and spaces; clean words are non-empty
  and have only characters of \<open>[a-z0-9]\<close>.
\<close>

definition plain :: "string \<Rightarrow> bool" where
  "plain s = (\<forall>c\<in>set s. is_az09 c \<or> c = CHR '' '')"

definition clean_words :: "string list \<Rightarrow> bool" where
  "clean_words ws = (\<forall>w\<in>set ws. w \<noteq> [] \<and> (\<forall>c\<in>set w. is_az09 c))"

text \<open>The labels of the compiled patterns that match a normalized text.\<close>

definition matched_labels :: "string \<Rightarrow> string set" where
  "matched_labels text_norm = {label. \<exists>rx. (label, rx) \<in> set compiled \<and> re_search rx text_norm}"

section \<open>The normalizer\<close>

lemma az09_not_space: "is_az09 c \<Longrightarrow> \<not> py_isspace c"
  by (auto simp: is_az09_def py_isspace_def Let_def)

lemma az09_lower: "is_az09 c \<Longrightarrow> py_lower_char c = c"
  by (auto simp: is_az09_def py_lower_char_def Let_def)

lemma space_facts:
  "py_isspace CHR '' ''" "\<not> is_az09 CHR '' ''" "py_lower_char CHR '' '' = CHR '' ''"
  by (simp_all add: is_az09_def py_isspace_def py_lower_char_def)

lemma plain_sub: "plain (NON_ALNUM_sub s)"
  by (induction s rule: NON_ALNUM_sub.induct) (auto simp: plain_def)

lemma clean_split_acc:
  "\<forall>c\<in>set w. is_az09 c \<Longrightarrow> plain s \<Longrightarrow> clean_words (split_acc w s)"
proof (induction s arbitrary: w)
  case Nil
  then show ?case by (simp add: clean_words_def)
next
  case (Cons c s)
  have ps: "plain s" using Cons.prems(2) by (simp add: plain_def)
  show ?case
  proof (cases "py_isspace c")
    case True
    have "clean_words (split_acc [] s)" using Cons.IH[of "[]"] ps by simp
    then show ?thesis using True Cons.prems(1) by (simp add: clean_words_def)
  next
    case False
    then have "is_az09 c" using Cons.prems(2) space_facts(1) by (auto simp: plain_def)
    then have "\<forall>x\<in>set (w @ [c]). is_az09 x" using Cons.prems(1) by simp
    then show ?thesis using False Cons.IH[of "w @ [c]"] ps by simp
  qed
qed

lemma join_Cons:
  "py_join sep (y # ys) = y @ (if ys = [] then [] else sep @ py_join sep ys)"
  by (cases ys) simp_all

lemma plain_join: "clean_words ws \<Longrightarrow> plain (py_join '' '' ws)"
  by (induction "'' ''" ws rule: py_join.induct) (auto simp: plain_def clean_words_def)

lemma lower_plain: "plain s \<Longrightarrow> py_lower s = s"
  by (induction s) (auto simp: plain_def py_lower_def az09_lower space_facts)

lemma sub_word: "\<forall>c\<in>set w. is_az09 c \<Longrightarrow> NON_ALNUM_sub (w @ s) = w @ NON_ALNUM_sub s"
  by (induction w) simp_all

lemma sub_join: "clean_words ws \<Longrightarrow> NON_ALNUM_sub (py_join '' '' ws) = py_join '' '' ws"
proof (induction "'' ''" ws rule: py_join.induct)
  case 1
  then show ?case by simp
next
  case (2 x)
  then show ?case using sub_word[of x "[]"] by (simp add: clean_words_def)
next
  case (3 x y ys)
  have cx: "\<forall>c\<in>set x. is_az09 c" and cy: "y \<noteq> []" "\<forall>c\<in>set y. is_az09 c"
    and cr: "clean_words (y # ys)"
    using 3(2) by (simp_all add: clean_words_def)
  obtain a rest where j: "py_join '' '' (y # ys) = a # rest" and a: "is_az09 a"
    using cy by (cases y) (auto simp: join_Cons)
  have "NON_ALNUM_sub (CHR '' '' # py_join '' '' (y # ys)) = CHR '' '' # py_join '' '' (y # ys)"
    using 3(1)[OF cr] j a by (simp add: space_facts)
  then show ?case using sub_word[OF cx] by simp
qed

lemma split_word:
  "\<forall>c\<in>set w. is_az09 c \<Longrightarrow> split_acc acc (w @ s) = split_acc (acc @ w) s"
  by (induction w arbitrary: acc) (simp_all add: az09_not_space)

lemma split_join: "clean_words ws \<Longrightarrow> py_split (py_join '' '' ws) = ws"
proof (induction "'' ''" ws rule: py_join.induct)
  case 1
  then show ?case by (simp add: py_split_def)
next
  case (2 x)
  then show ?case using split_word[of x "[]" "[]"] by (simp add: clean_words_def py_split_def)
next
  case (3 x y ys)
  have cx: "x \<noteq> []" "\<forall>c\<in>set x. is_az09 c" and cr: "clean_words (y # ys)"
    using 3(2) by (simp_all add: clean_words_def)
  have "split_acc [] (x @ CHR '' '' # py_join '' '' (y # ys))
        = split_acc x (CHR '' '' # py_join '' '' (y # ys))"
    using split_word[OF cx(2), of "[]"] by simp
  also have "\<dots> = x # split_acc [] (py_join '' '' (y # ys))"
    using cx(1) by (simp add: space_facts)
  finally show ?case using 3(1)[OF cr] by (simp add: py_split_def)
qed

lemma normalize_text_words:
  "\<exists>ws. clean_words ws \<and> normalize_text t = py_join '' '' ws"
proof -
  have "clean_words (py_split (NON_ALNUM_sub (py_lower t)))"
    unfolding py_split_def using clean_split_acc[of "[]"] plain_sub by simp
  then show ?thesis by (auto simp: normalize_text_def Let_def)
qed

text \<open>
  Claim C4: \<open>normalize_text\<close> is idempotent: normalizing a normalized text changes
  nothing, for every input string.
\<close>

theorem normalize_text_idempotent: "normalize_text (normalize_text x) = normalize_text x"
proof -
  obtain ws where ws: "clean_words ws" and n: "normalize_text x = py_join '' '' ws"
    using normalize_text_words by blast
  have "normalize_text (py_join '' '' ws) = py_join '' '' ws"
    using ws by (simp add: normalize_text_def Let_def lower_plain plain_join sub_join split_join)
  then show ?thesis using n by simp
qed

text \<open>
  Claim C9: the claim and the repository's test \<open>test_normalize_text_ai_punctuation\<close>
  expect \<open>normalize_text("A.I.") == "ai"\<close>. The function lower-cases the input to
  \<open>a.i.\<close>, turns each full stop into a space and joins the two words \<open>a\<close> and \<open>i\<close>
  with one space: the result is \<open>a i\<close>, not \<open>ai\<close>.
\<close>

theorem normalize_text_A_I: "normalize_text ''A.I.'' = ''a i'' \<and> normalize_text ''A.I.'' \<noteq> ''ai''"
  by code_simp

section \<open>Fuzzy matching\<close>

lemma max_fuzzy_score_empty: "max_fuzzy_score partial_ratio [] phrases = Inr 0"
  by (simp add: max_fuzzy_score_def)

lemma fuzzy_phrases_nonempty: "fuzzy_phrases \<noteq> []"
  by (simp add: fuzzy_phrases_def BROAD_FUZZY_PHRASES_def)

lemma max_fuzzy_score_returns:
  "phrases \<noteq> [] \<Longrightarrow> \<exists>score. max_fuzzy_score partial_ratio text phrases = Inr score"
  by (cases phrases) (simp_all add: max_fuzzy_score_def)

lemma collect_map_Inr: "collect (map (\<lambda>x. Inr (f x)) xs) = Inr (map f xs)"
  by (induction xs) simp_all

lemma fuzzy_flag_score:
  "max_fuzzy_score partial_ratio text phrases = Inr score \<Longrightarrow>
   fuzzy_flag partial_ratio phrases threshold text = Inr (threshold \<le> score)"
  by (simp add: fuzzy_flag_def)

lemma fuzzy_flag_phrases:
  "fuzzy_flag partial_ratio fuzzy_phrases threshold text =
     Inr (threshold \<le> projr (max_fuzzy_score partial_ratio text fuzzy_phrases))"
proof -
  obtain score where "max_fuzzy_score partial_ratio text fuzzy_phrases = Inr score"
    using max_fuzzy_score_returns[OF fuzzy_phrases_nonempty] by blast
  then show ?thesis by (simp add: fuzzy_flag_def)
qed

lemma fuzzy_match_of_enabled:
  "\<not> disable_fuzzy a \<Longrightarrow>
   fuzzy_match_of partial_ratio a texts =
     Inr (map (\<lambda>text. fuzzy_threshold a \<le> projr (max_fuzzy_score partial_ratio text fuzzy_phrases)) texts)"
  by (simp add: fuzzy_match_of_def fuzzy_flag_phrases[abs_def] collect_map_Inr)

lemma count_true_mono:
  "list_all2 (\<lambda>x y. x \<longrightarrow> y) fs gs \<Longrightarrow> length (filter id fs) \<le> length (filter id gs)"
  by (induction rule: list_all2_induct) auto

text \<open>
  Claim C3: the fuzzy decision is monotone in the threshold. With \<open>t1 \<le> t2\<close>, a text
  that is fuzzy-classified at threshold \<open>t2\<close> is fuzzy-classified at \<open>t1\<close>, for every
  scorer and phrase list; and over a batch of texts, whenever the run at \<open>t2\<close> returns
  its list of flags the run at \<open>t1\<close> returns one too, every record flagged at \<open>t2\<close> is
  flagged at \<open>t1\<close>, and the number of flagged records at \<open>t2\<close> is at most the number
  at \<open>t1\<close>.
\<close>

theorem fuzzy_threshold_monotone:
  assumes "t1 \<le> t2"
  shows "(fuzzy_flag partial_ratio phrases t2 text = Inr True
            \<longrightarrow> fuzzy_flag partial_ratio phrases t1 text = Inr True)
       \<and> (fuzzy_match_of partial_ratio (a\<lparr>fuzzy_threshold := t2\<rparr>) texts = Inr f2
            \<longrightarrow> (\<exists>f1. fuzzy_match_of partial_ratio (a\<lparr>fuzzy_threshold := t1\<rparr>) texts = Inr f1
                   \<and> list_all2 (\<lambda>x y. x \<longrightarrow> y) f2 f1
                   \<and> length (filter id f2) \<le> length (filter id f1)))"
proof (intro conjI impI)
  assume "fuzzy_flag partial_ratio phrases t2 text = Inr True"
  then show "fuzzy_flag partial_ratio phrases t1 text = Inr True"
    using assms by (auto simp: fuzzy_flag_def split: sum.splits)
next
  assume f2: "fuzzy_match_of partial_ratio (a\<lparr>fuzzy_threshold := t2\<rparr>) texts = Inr f2"
  show "\<exists>f1. fuzzy_match_of partial_ratio (a\<lparr>fuzzy_threshold := t1\<rparr>) texts = Inr f1
                   \<and> list_all2 (\<lambda>x y. x \<longrightarrow> y) f2 f1
                   \<and> length (filter id f2) \<le> length (filter id f1)"
  proof (cases "disable_fuzzy a")
    case True
    then have "fuzzy_match_of partial_ratio (a\<lparr>fuzzy_threshold := t1\<rparr>) texts = Inr f2"
      using f2 by (simp add: fuzzy_match_of_def)
    then show ?thesis by (simp add: list_all2_same)
  next
    case False
    let ?s = "\<lambda>text. projr (max_fuzzy_score partial_ratio text fuzzy_phrases)"
    have e2: "f2 = map (\<lambda>text. t2 \<le> ?s text) texts"
      using f2 False fuzzy_match_of_enabled[of "a\<lparr>fuzzy_threshold := t2\<rparr>" partial_ratio texts] by simp
    have e1: "fuzzy_match_of partial_ratio (a\<lparr>fuzzy_threshold := t1\<rparr>) texts
                = Inr (map (\<lambda>text. t1 \<le> ?s text) texts)"
      using False fuzzy_match_of_enabled[of "a\<lparr>fuzzy_threshold := t1\<rparr>" partial_ratio texts] by simp
    have m: "list_all2 (\<lambda>x y. x \<longrightarrow> y) f2 (map (\<lambda>text. t1 \<le> ?s text) texts)"
      unfolding e2 using assms by (simp add: list_all2_conv_all_nth)
    show ?thesis using e1 m count_true_mono[OF m] by simp
  qed
qed

theorem fuzzy_threshold_monotone_witness:
  "(80::int) \<le> 85
   \<and> fuzzy_flag (\<lambda>t p. 90) [''data science''] 85 ''data sience'' = Inr True
   \<and> fuzzy_flag (\<lambda>t p. 90) [''data science''] 80 ''data sience'' = Inr True
   \<and> fuzzy_match_of (\<lambda>t p. 90) \<lparr>fuzzy_threshold = 85, disable_fuzzy = False\<rparr> [''data sience''] = Inr [True]
   \<and> (\<exists>f1. fuzzy_match_of (\<lambda>t p. 90) \<lparr>fuzzy_threshold = 80, disable_fuzzy = False\<rparr> [''data sience''] = Inr f1
          \<and> list_all2 (\<lambda>x y. x \<longrightarrow> y) [True] f1
          \<and> length (filter id [True]) \<le> length (filter id f1))"
proof -
  have h: "(80::int) \<le> 85" by simp
  have p1: "fuzzy_flag (\<lambda>t p. 90) [''data science''] 85 ''data sience'' = Inr True"
    by (simp add: fuzzy_flag_def max_fuzzy_score_def)
  have p2: "fuzzy_match_of (\<lambda>t p. 90) \<lparr>fuzzy_threshold = 85, disable_fuzzy = False\<rparr> [''data sience''] = Inr [True]"
    by code_simp
  show ?thesis
    using h p1 p2
      fuzzy_threshold_monotone[OF h, of "\<lambda>t p. 90" "[''data science'']" "''data sience''"
        "\<lparr>fuzzy_threshold = 85, disable_fuzzy = False\<rparr>" "[''data sience'']" "[True]"]
    by simp
qed

text \<open>
  Claim C8, as amended: for an empty normalized text \<open>max_fuzzy_score\<close> returns the
  score 0 without calling the scorer (whatever the scorer and the phrases, even an empty
  phrase list, on which \<open>max\<close> would raise), so the fuzzy decision is \<open>0 >= threshold\<close>:
  false for every threshold above 0, true for a threshold of 0 or less.
\<close>

theorem fuzzy_empty_text:
  "max_fuzzy_score partial_ratio [] phrases = Inr 0
   \<and> fuzzy_flag partial_ratio phrases threshold [] = Inr (threshold \<le> 0)"
  by (simp add: fuzzy_flag_def max_fuzzy_score_def)

text \<open>
  The claim as stated fails at threshold 0, a value of the 0 to 100 scale that
  \<open>--fuzzy-threshold\<close> accepts: the empty text is fuzzy-classified.
\<close>

theorem fuzzy_empty_text_threshold_0:
  "fuzzy_flag (\<lambda>t p. 0) fuzzy_phrases 0 (normalize_text []) = Inr True"
  by (simp add: fuzzy_flag_def max_fuzzy_score_def normalize_text_def py_lower_def py_split_def)

lemma or_False_zip: "length fs = n \<Longrightarrow> map (\<lambda>(m, f). m \<or> f) (zip fs (replicate n False)) = fs"
  by (induction fs arbitrary: n) auto

lemma add_columns_cols:
  "length flags = length df \<Longrightarrow> length reasons = length df \<Longrightarrow>
   map row (add_columns df flags reasons) = df
   \<and> map is_ai_candidate (add_columns df flags reasons) = flags
   \<and> map ai_candidate_reason (add_columns df flags reasons) = reasons"
proof (induction df arbitrary: flags reasons)
  case Nil
  then show ?case by (simp add: add_columns_def)
next
  case (Cons r df)
  then obtain f fs q qs where "flags = f # fs" "reasons = q # qs"
    by (cases flags; cases reasons) auto
  then show ?case using Cons by (simp add: add_columns_def)
qed

text \<open>
  Claim C2: with \<open>--disable-fuzzy\<close> the classification returns (it raises nothing), keeps
  the rows, and the flag of every record is its rule match: no rule-matched record loses
  its flag and no other record gets one.
\<close>

theorem fuzzy_disabled_rules_only:
  assumes "disable_fuzzy a"
  shows "\<exists>rows. classify partial_ratio a df = Inr rows
           \<and> map row rows = df
           \<and> map is_ai_candidate rows = map matched_of (text_norm_series df)"
proof -
  let ?texts = "text_norm_series df"
  have len: "length ?texts = length df" by (simp add: text_norm_series_def)
  have "classify partial_ratio a df
          = Inr (add_columns df (map matched_of ?texts) (map reason_of ?texts))"
    using assms by (simp add: classify_def fuzzy_match_of_def Let_def or_False_zip)
  then show ?thesis using add_columns_cols[of "map matched_of ?texts" df "map reason_of ?texts"] len
    by simp
qed

theorem fuzzy_disabled_rules_only_witness:
  "disable_fuzzy \<lparr>fuzzy_threshold = 85, disable_fuzzy = True\<rparr>
   \<and> (\<exists>rows. classify (\<lambda>t p. 100) \<lparr>fuzzy_threshold = 85, disable_fuzzy = True\<rparr>
                [\<lparr>prefix = Some ''PHIL'', number = Some (100::nat),
                  title = Some ''Ethics in Technology'', description = None, other = []\<rparr>]
              = Inr rows
          \<and> map row rows =
                [\<lparr>prefix = Some ''PHIL'', number = Some (100::nat),
                  title = Some ''Ethics in Technology'', description = None, other = []\<rparr>]
          \<and> map is_ai_candidate rows =
                map matched_of (text_norm_series
                  [\<lparr>prefix = Some ''PHIL'', number = Some (100::nat),
                    title = Some ''Ethics in Technology'', description = None, other = []\<rparr>]))"
  using fuzzy_disabled_rules_only
    [of "\<lparr>fuzzy_threshold = 85, disable_fuzzy = True\<rparr>" "\<lambda>t p. 100"
        "[\<lparr>prefix = Some ''PHIL'', number = Some (100::nat),
           title = Some ''Ethics in Technology'', description = None, other = []\<rparr>]"]
  by simp

section \<open>The reason string\<close>

lemma join_nonempty: "xs \<noteq> [] \<Longrightarrow> hd xs \<noteq> [] \<Longrightarrow> py_join sep xs \<noteq> []"
  by (cases xs) (simp_all add: join_Cons)

lemma compiled_labels_nonempty: "(label, rx) \<in> set compiled \<Longrightarrow> label \<noteq> []"
  by (auto simp: compiled_def BROAD_PATTERNS_def)

lemma set_hits_of: "set (hits_of text_norm) = matched_labels text_norm"
  by (force simp: hits_of_def matched_labels_def)

lemma hits_nonempty_labels: "label \<in> set (hits_of text_norm) \<Longrightarrow> label \<noteq> []"
  using compiled_labels_nonempty by (auto simp: hits_of_def)

lemma reason_of_sorted_set:
  "reason_of text_norm = py_join '','' (sorted_list_of_set (matched_labels text_norm))"
proof (cases "hits_of text_norm = []")
  case True
  then have "matched_labels text_norm = {}" using set_hits_of[of text_norm] by simp
  then show ?thesis using True by (simp add: reason_of_def)
next
  case False
  then show ?thesis
    by (simp add: reason_of_def Let_def sorted_list_of_set_sort_remdups[symmetric] set_hits_of)
qed

lemma reason_of_empty_iff: "(reason_of text_norm = []) = (matched_labels text_norm = {})"
proof (cases "hits_of text_norm = []")
  case True
  then have "matched_labels text_norm = {}" using set_hits_of[of text_norm] by simp
  then show ?thesis using True by (simp add: reason_of_def)
next
  case False
  let ?ls = "sort (remdups (hits_of text_norm))"
  have ne: "?ls \<noteq> []" using False by (metis set_empty set_remdups set_sort)
  then have "hd ?ls \<in> set (hits_of text_norm)"
    using hd_in_set[OF ne] by simp
  then have "hd ?ls \<noteq> []" using hits_nonempty_labels by blast
  then have "py_join '','' ?ls \<noteq> []" using join_nonempty[OF ne] by simp
  moreover have "matched_labels text_norm \<noteq> {}" using False set_hits_of[of text_norm] by auto
  ultimately show ?thesis using False by (simp add: reason_of_def Let_def)
qed

lemma classify_columns:
  assumes "classify partial_ratio a df = Inr rows"
  shows "map row rows = df
       \<and> map ai_candidate_reason rows = map reason_of (text_norm_series df)
       \<and> (\<exists>fuzzy_match. fuzzy_match_of partial_ratio a (text_norm_series df) = Inr fuzzy_match
            \<and> length fuzzy_match = length df
            \<and> map is_ai_candidate rows
                = map (\<lambda>(m, f). m \<or> f) (zip (map matched_of (text_norm_series df)) fuzzy_match))"
proof -
  let ?texts = "text_norm_series df"
  have len: "length ?texts = length df" by (simp add: text_norm_series_def)
  obtain fm where fm: "fuzzy_match_of partial_ratio a ?texts = Inr fm"
    and rows: "rows = add_columns df (map (\<lambda>(m, f). m \<or> f) (zip (map matched_of ?texts) fm))
                        (map reason_of ?texts)"
    using assms by (auto simp: classify_def Let_def split: sum.splits)
  have lfm: "length fm = length df"
  proof (cases "disable_fuzzy a")
    case True
    then show ?thesis using fm len by (auto simp: fuzzy_match_of_def)
  next
    case False
    then show ?thesis using fm len fuzzy_match_of_enabled[OF False, of partial_ratio ?texts] by auto
  qed
  show ?thesis
    using add_columns_cols[of "map (\<lambda>(m, f). m \<or> f) (zip (map matched_of ?texts) fm)" df
        "map reason_of ?texts"] len lfm fm rows
    by simp
qed

text \<open>
  Claim C7: for every record of a run that returns, the reason string is the
  comma-joined, sorted, duplicate-free list of the labels of all patterns that match
  the record's normalized text, and it is empty exactly when no pattern matches,
  whatever the record's flag (so also for a record flagged by fuzzy matching alone).
\<close>

theorem reason_is_sorted_label_set:
  assumes "classify partial_ratio a df = Inr rows" and "i < length df"
  shows "ai_candidate_reason (rows ! i)
           = py_join '','' (sorted_list_of_set (matched_labels (text_norm_series df ! i)))
       \<and> ((ai_candidate_reason (rows ! i) = []) = (matched_labels (text_norm_series df ! i) = {}))"
proof -
  have len: "length (text_norm_series df) = length df" by (simp add: text_norm_series_def)
  have "map ai_candidate_reason rows = map reason_of (text_norm_series df)"
    using classify_columns[OF assms(1)] by simp
  then have "ai_candidate_reason (rows ! i) = reason_of (text_norm_series df ! i)"
    using assms(2) len by (metis length_map nth_map)
  then show ?thesis using reason_of_sorted_set reason_of_empty_iff by simp
qed

theorem reason_is_sorted_label_set_witness:
  "classify (\<lambda>t p. 0) \<lparr>fuzzy_threshold = 85, disable_fuzzy = False\<rparr>
      [\<lparr>prefix = Some ''EGR'', number = Some (101::nat), title = Some ''Autonomous'',
        description = None, other = []\<rparr>]
    = Inr [\<lparr>row = \<lparr>prefix = Some ''EGR'', number = Some 101, title = Some ''Autonomous'',
                     description = None, other = []\<rparr>,
            is_ai_candidate = True, ai_candidate_reason = ''autonomous''\<rparr>]
   \<and> (0::nat) < length [\<lparr>prefix = Some ''EGR'', number = Some (101::nat),
                          title = Some ''Autonomous'', description = None, other = []\<rparr>]
   \<and> ''autonomous''
       = py_join '','' (sorted_list_of_set (matched_labels (text_norm_series
           [\<lparr>prefix = Some ''EGR'', number = Some (101::nat), title = Some ''Autonomous'',
             description = None, other = []\<rparr>] ! 0)))"
proof -
  let ?r = "\<lparr>prefix = Some ''EGR'', number = Some (101::nat), title = Some ''Autonomous'',
             description = None, other = []\<rparr>"
  have h: "classify (\<lambda>t p. 0) \<lparr>fuzzy_threshold = 85, disable_fuzzy = False\<rparr> [?r]
            = Inr [\<lparr>row = ?r, is_ai_candidate = True, ai_candidate_reason = ''autonomous''\<rparr>]"
    by code_simp
  have i: "(0::nat) < length [?r]" by simp
  show ?thesis using h i reason_is_sorted_label_set[OF h i] by simp
qed

section \<open>The ethics matcher\<close>

lemma is_match_iff:
  "is_match self t d =
     (list_ex (\<lambda>p. re_search p (or_empty t)) (title_patterns self)
      \<or> list_ex (\<lambda>p. re_search p (or_empty d)) (description_patterns self))"
  by (cases "description_patterns self") (simp_all add: is_match_def Let_def)

lemma title_ethics_matches:
  "list_ex (\<lambda>p. re_search p ''Introduction to Ethics'') (title_patterns (build b))"
  by (cases b; code_simp)

text \<open>
  Claim C6: for every matcher, title and description, \<open>is_match\<close> (of ethics\_filter and
  of ethics\_analysis) is true if and only if some title pattern matches the title or some
  description pattern matches the description, a missing value counting as the empty
  string; nothing else gates the result. The title \<open>Introduction to Ethics\<close> alone
  suffices, whatever the description, although no AI pattern matches it.
\<close>

theorem ethics_is_match_correct:
  "is_match self title_arg description_arg
     = ((\<exists>p\<in>set (title_patterns self). re_search p (or_empty title_arg))
        \<or> (\<exists>p\<in>set (description_patterns self). re_search p (or_empty description_arg)))
   \<and> analysis_is_match self title_arg description_arg
     = ((\<exists>p\<in>set (title_patterns self). re_search p (or_empty title_arg))
        \<or> (\<exists>p\<in>set (description_patterns self). re_search p (or_empty description_arg)))
   \<and> is_match (build include_description) (Some ''Introduction to Ethics'') description_arg
   \<and> analysis_is_match analysis_build (Some ''Introduction to Ethics'') description_arg
   \<and> \<not> matched_of (normalize_text (''Introduction to Ethics'' @ '' '' @ []))"
proof -
  have a: "is_match self title_arg description_arg
     = ((\<exists>p\<in>set (title_patterns self). re_search p (or_empty title_arg))
        \<or> (\<exists>p\<in>set (description_patterns self). re_search p (or_empty description_arg)))"
    by (simp add: is_match_iff list_ex_iff)
  have b: "analysis_is_match self title_arg description_arg
     = ((\<exists>p\<in>set (title_patterns self). re_search p (or_empty title_arg))
        \<or> (\<exists>p\<in>set (description_patterns self). re_search p (or_empty description_arg)))"
    by (auto simp: analysis_is_match_def Let_def list_ex_iff)
  have t: "list_ex (\<lambda>p. re_search p ''Introduction to Ethics'') (title_patterns (build include_description))"
    by (rule title_ethics_matches)
  have c: "is_match (build include_description) (Some ''Introduction to Ethics'') description_arg"
    using t by (simp add: is_match_iff or_empty_def)
  have t': "title_patterns analysis_build = title_patterns (build True)"
    by (simp add: analysis_build_def build_def)
  have d: "analysis_is_match analysis_build (Some ''Introduction to Ethics'') description_arg"
    using title_ethics_matches[of True] t' by (simp add: analysis_is_match_def Let_def or_empty_def)
  have e: "\<not> matched_of (normalize_text (''Introduction to Ethics'' @ '' '' @ []))"
    by code_simp
  show ?thesis using a b c d e by blast
qed

text \<open>
  Claim C10: for a matcher built with \<open>include_description=False\<close>, \<open>is_match\<close> gives the
  same result for any two descriptions, and it is true if and only if some title pattern
  (one of the compiled \<open>TITLE_PATTERNS\<close>) matches the title.
\<close>

theorem title_only_matcher:
  "is_match (build False) title_arg d1 = is_match (build False) title_arg d2
   \<and> is_match (build False) title_arg d1
       = (\<exists>p\<in>set (title_patterns (build False)). re_search p (or_empty title_arg))
   \<and> title_patterns (build False) = map (\<lambda>pattern. re_compile pattern True) TITLE_PATTERNS"
  by (simp add: is_match_def Let_def build_def list_ex_iff)

text \<open>On two present cells \<open>main\<close> of ethics\_analysis computes \<open>is_match\<close>.\<close>

lemma any_search_present: "any_search ps (Some s) = Inr (list_ex (\<lambda>p. re_search p s) ps)"
  by (induction ps) simp_all

lemma is_match_cells_present:
  "is_match_cells self (Some t) (Some d) = Inr (analysis_is_match self (Some t) (Some d))"
  by (simp add: is_match_cells_def analysis_is_match_def any_search_present or_empty_def Let_def)

section \<open>The flagged subset\<close>

lemma dda_subset: "set (drop_duplicates_acc seen key rs) \<subseteq> set rs"
  by (induction rs arbitrary: seen) auto

lemma dda_keys: "key ` set (drop_duplicates_acc seen key rs) = key ` set rs - set seen"
  by (induction rs arbitrary: seen) auto

lemma dda_distinct: "distinct (map key (drop_duplicates_acc seen key rs))"
proof (induction rs arbitrary: seen)
  case Nil
  then show ?case by simp
next
  case (Cons r rs)
  have "key r \<notin> key ` set (drop_duplicates_acc (key r # seen) key rs)"
    by (simp add: dda_keys)
  then show ?case using Cons by simp
qed

lemma distinct_map_insort_key:
  "distinct (map k (insort_key f x xs)) = (k x \<notin> k ` set xs \<and> distinct (map k xs))"
  by (induction xs) (auto simp: set_insort_key)

lemma distinct_map_sort_key: "distinct (map k (sort_key f xs)) = distinct (map k xs)"
  by (induction xs) (simp_all add: distinct_map_insort_key)

lemma sort_values_facts:
  "set (sort_values c1 c2 df) = set df"
  "sorted (map (sort_column_key c1 c2) (sort_values c1 c2 df))"
  "distinct (map k (sort_values c1 c2 df)) = distinct (map k df)"
  by (simp_all add: sort_values_def distinct_map_sort_key)

lemma sort_column_key_present:
  "c1 r = Some a \<Longrightarrow> c2 r = Some b \<Longrightarrow> c1 r' = Some a' \<Longrightarrow> c2 r' = Some b' \<Longrightarrow>
   (sort_column_key c1 c2 r \<le> sort_column_key c1 c2 r') = ((a, b) \<le> (a', b'))"
  by (auto simp: sort_column_key_def na_last_def less_eq_prod_def)

lemma sort_key_le_row_le:
  "(sort_column_key c1 c2 r \<le> sort_column_key c1 c2 r') = row_le c1 c2 r r'"
  by (auto simp: sort_column_key_def na_last_def row_le_def cell_less_def less_eq_prod_def
      less_eq_option_def less_option_def split: option.splits)

lemma sort_values_row_le: "sorted_wrt (row_le c1 c2) (sort_values c1 c2 df)"
proof -
  have "sorted (map (sort_column_key c1 c2) (sort_values c1 c2 df))"
    by (rule sort_values_facts(2))
  then have "sorted_wrt (\<lambda>r r'. sort_column_key c1 c2 r \<le> sort_column_key c1 c2 r')
               (sort_values c1 c2 df)"
    by (simp add: sorted_map)
  then show ?thesis by (simp add: sort_key_le_row_le)
qed

text \<open>
  Claim C5: on a data frame with no rows the expression raises \<open>KeyError\<close> and nothing
  is written; on every other data frame it returns, and the subset written has only rows
  of the data frame whose flag is true, holds each (prefix, number) key at most once,
  holds a key if and only if some row of the data frame with that key is flagged, and is
  sorted by (prefix, number), the missing cells of a column last.
\<close>

theorem flagged_subset_correct:
  "(flagged_subset c1 c2 flag df = Inl KeyError) = (df = [])
   \<and> (df \<noteq> [] \<longrightarrow> (\<exists>written. flagged_subset c1 c2 flag df = Inr written))
   \<and> (flagged_subset c1 c2 flag df = Inr written \<longrightarrow>
        set written \<subseteq> {r \<in> set df. flag r}
        \<and> distinct (map (\<lambda>r. (c1 r, c2 r)) written)
        \<and> (\<lambda>r. (c1 r, c2 r)) ` set written = (\<lambda>r. (c1 r, c2 r)) ` {r \<in> set df. flag r}
        \<and> sorted_wrt (row_le c1 c2) written)"
proof -
  let ?key = "\<lambda>r. (c1 r, c2 r)"
  let ?dd = "drop_duplicates c1 c2 (filter flag df)"
  have s: "set ?dd \<subseteq> {r \<in> set df. flag r}"
    using dda_subset[of "[]" ?key "filter flag df"] by (auto simp: drop_duplicates_def)
  have k: "?key ` set ?dd = ?key ` {r \<in> set df. flag r}"
    using dda_keys[of ?key "[]" "filter flag df"] by (simp add: drop_duplicates_def)
  have d: "distinct (map ?key ?dd)"
    by (simp add: drop_duplicates_def dda_distinct)
  have o: "sorted_wrt (row_le c1 c2) (sort_values c1 c2 ?dd)"
    by (rule sort_values_row_le)
  show ?thesis
    using s k d o by (auto simp: flagged_subset_def sort_values_facts)
qed

theorem flagged_subset_correct_witness:
  "[(Some ''PHIL'', Some (100::nat), True), (Some ''CS'', Some 470, True),
    (Some ''CS'', Some 470, True), (None, Some 1, True), (Some ''CS'', Some 200, False)] \<noteq> []
   \<and> flagged_subset fst (\<lambda>r. fst (snd r)) (\<lambda>r. snd (snd r))
        [(Some ''PHIL'', Some (100::nat), True), (Some ''CS'', Some 470, True),
         (Some ''CS'', Some 470, True), (None, Some 1, True), (Some ''CS'', Some 200, False)]
      = Inr [(Some ''CS'', Some 470, True), (Some ''PHIL'', Some 100, True), (None, Some 1, True)]
   \<and> sorted_wrt (row_le fst (\<lambda>r. fst (snd r)))
        [(Some ''CS'', Some (470::nat), True), (Some ''PHIL'', Some 100, True), (None, Some 1, True)]"
proof -
  let ?df = "[(Some ''PHIL'', Some (100::nat), True), (Some ''CS'', Some 470, True),
    (Some ''CS'', Some 470, True), (None, Some 1, True), (Some ''CS'', Some 200, False)]"
  let ?out = "[(Some ''CS'', Some (470::nat), True), (Some ''PHIL'', Some 100, True), (None, Some 1, True)]"
  have n: "?df \<noteq> []" by simp
  have h: "flagged_subset fst (\<lambda>r. fst (snd r)) (\<lambda>r. snd (snd r)) ?df = Inr ?out"
    by code_simp
  show ?thesis
    using n h flagged_subset_correct[of fst "\<lambda>r. fst (snd r)" "\<lambda>r. snd (snd r)" ?df ?out]
    by simp
qed

text \<open>Both scripts raise on a data frame with no rows.\<close>

lemma broad_main_no_rows: "broad_main partial_ratio a [] = Inl KeyError"
  by (simp add: broad_main_def classify_def text_norm_series_def fuzzy_match_of_def
      add_columns_def flagged_subset_def)

lemma ethics_main_no_rows: "ethics_main [] = Inl KeyError"
  by (simp add: ethics_main_def flagged_subset_def)


section \<open>The tiered rule match\<close>

text \<open>
  Claim C1: for every title and description (and all tiers and every normalizer), the AI
  rule classification is positive if and only if some primary pattern matches the
  combined normalized text, or some secondary pattern matches it and some context pattern
  matches it; so a text that no primary and no context pattern matches is classified
  negative, whatever the secondary patterns find in it.
\<close>

theorem ai_rule_match_tiers:
  "ai_rule_match normalizer primary secondary context title_arg description_arg
     = ((\<exists>p\<in>set primary.
           re_search p (normalizer (or_empty title_arg @ '' '' @ or_empty description_arg)))
        \<or> ((\<exists>s\<in>set secondary.
               re_search s (normalizer (or_empty title_arg @ '' '' @ or_empty description_arg)))
           \<and> (\<exists>c\<in>set context.
               re_search c (normalizer (or_empty title_arg @ '' '' @ or_empty description_arg)))))
   \<and> (\<not> (\<exists>p\<in>set primary.
            re_search p (normalizer (or_empty title_arg @ '' '' @ or_empty description_arg)))
        \<and> \<not> (\<exists>c\<in>set context.
            re_search c (normalizer (or_empty title_arg @ '' '' @ or_empty description_arg)))
      \<longrightarrow> \<not> ai_rule_match normalizer primary secondary context title_arg description_arg)"
  by (auto simp: ai_rule_match_def keyword_match_def matches_any_def list_ex_iff)

theorem ai_rule_match_tiers_witness:
  "\<not> matches_any (normalize_text (or_empty (Some ''Autonomous Vehicles'') @ '' '' @ or_empty None))
        [re_compile (bounded [lit ''machine learning'']) False]
   \<and> matches_any (normalize_text (or_empty (Some ''Autonomous Vehicles'') @ '' '' @ or_empty None))
        [re_compile (bounded [lit ''autonomous'']) False,
         re_compile (bounded [lit ''data science'']) False]
   \<and> \<not> matches_any (normalize_text (or_empty (Some ''Autonomous Vehicles'') @ '' '' @ or_empty None))
        [re_compile (bounded [lit ''artificial intelligence'']) False,
         re_compile (bounded [lit ''ai'']) False]
   \<and> \<not> ai_rule_match normalize_text
        [re_compile (bounded [lit ''machine learning'']) False]
        [re_compile (bounded [lit ''autonomous'']) False,
         re_compile (bounded [lit ''data science'']) False]
        [re_compile (bounded [lit ''artificial intelligence'']) False,
         re_compile (bounded [lit ''ai'']) False]
        (Some ''Autonomous Vehicles'') None"
proof -
  let ?t = "normalize_text (or_empty (Some ''Autonomous Vehicles'') @ '' '' @ or_empty None)"
  let ?P = "[re_compile (bounded [lit ''machine learning'']) False]"
  let ?S = "[re_compile (bounded [lit ''autonomous'']) False,
             re_compile (bounded [lit ''data science'']) False]"
  let ?C = "[re_compile (bounded [lit ''artificial intelligence'']) False,
             re_compile (bounded [lit ''ai'']) False]"
  have p: "\<not> matches_any ?t ?P" by code_simp
  have s: "matches_any ?t ?S" by code_simp
  have c: "\<not> matches_any ?t ?C" by code_simp
  have p': "\<not> (\<exists>p\<in>set ?P. re_search p ?t)" using p by (simp only: matches_any_def list_ex_iff not_False_eq_True)
  have c': "\<not> (\<exists>p\<in>set ?C. re_search p ?t)" using c by (simp only: matches_any_def list_ex_iff not_False_eq_True)
  show ?thesis
    using p s c p' c'
      ai_rule_match_tiers[of normalize_text ?P ?S ?C "Some ''Autonomous Vehicles''" None]
    by blast
qed

end
